theory Spec2Isabelle
  imports Complex_Main
begin

section \<open>Python values and errors\<close>

text \<open>
  The catalog entries, the call envelopes and the replies of \<^verbatim>\<open>main.py\<close> are Python
  values decoded from (or encoded to) JSON. A dictionary is the list of its items, looked
  up with \<open>map_of\<close>. JSON numbers with a fraction are not modelled: the byte counts and
  handles of the engine are integers.
\<close>

datatype pyval =
    PNone
  | PBool bool
  | PInt int
  | PStr string
  | PList "pyval list"
  | PDict "(string \<times> pyval) list"

datatype error =
    KeyError
  | TypeError
  | AttributeError
  | ValueError
  | OverflowError
  | ConnectionError
  | JSONDecodeError

text \<open>\<^verbatim>\<open>v[k]\<close> with a string key: only a dictionary holding the key answers.\<close>

fun subscript :: "pyval \<Rightarrow> string \<Rightarrow> error + pyval" where
  "subscript (PDict kvs) k = (case map_of kvs k of None \<Rightarrow> Inl KeyError | Some v \<Rightarrow> Inr v)"
| "subscript v k = Inl TypeError"

text \<open>\<^verbatim>\<open>v.get(k, None)\<close>.\<close>

fun dict_get :: "pyval \<Rightarrow> string \<Rightarrow> error + pyval" where
  "dict_get (PDict kvs) k = (case map_of kvs k of None \<Rightarrow> Inr PNone | Some v \<Rightarrow> Inr v)"
| "dict_get v k = Inl AttributeError"

text \<open>Truth value of a Python value, as \<^verbatim>\<open>if v:\<close> tests it.\<close>

fun truthy :: "pyval \<Rightarrow> bool" where
  "truthy PNone = False"
| "truthy (PBool b) = b"
| "truthy (PInt i) = (i \<noteq> 0)"
| "truthy (PStr s) = (s \<noteq> [])"
| "truthy (PList xs) = (xs \<noteq> [])"
| "truthy (PDict kvs) = (kvs \<noteq> [])"

text \<open>
  \<^verbatim>\<open>v == b\<close> for a Python \<^verbatim>\<open>bool\<close> \<open>b\<close>: \<^verbatim>\<open>bool\<close> is a subclass of \<^verbatim>\<open>int\<close>, so
  \<^verbatim>\<open>0 == False\<close> and \<^verbatim>\<open>1 == True\<close> hold; no other kind of value equals a boolean.
\<close>

fun py_eq_bool :: "pyval \<Rightarrow> bool \<Rightarrow> bool" where
  "py_eq_bool (PBool c) b = (c = b)"
| "py_eq_bool (PInt i) b = (i = (if b then 1 else 0))"
| "py_eq_bool v b = False"

text \<open>\<^verbatim>\<open>v == s\<close> for a Python \<^verbatim>\<open>str\<close> \<open>s\<close>.\<close>

fun py_eq_str :: "pyval \<Rightarrow> string \<Rightarrow> bool" where
  "py_eq_str (PStr t) s = (t = s)"
| "py_eq_str v s = False"

text \<open>The operand of \<^verbatim>\<open>/ 1024\<close>: an \<^verbatim>\<open>int\<close> (or a \<^verbatim>\<open>bool\<close>); anything else raises.\<close>

fun number :: "pyval \<Rightarrow> error + rat" where
  "number (PInt i) = Inr (of_int i)"
| "number (PBool b) = Inr (if b then 1 else 0)"
| "number v = Inl TypeError"

section \<open>Rounding\<close>

text \<open>
  \<^verbatim>\<open>round(x, n)\<close> rounds the exact value of \<open>x\<close> to \<open>n\<close> decimals, a tie going to the even
  neighbour. Sizes are kept as exact rationals: \<^verbatim>\<open>b / 1024 / 1024\<close> is exact in binary
  floating point for every byte count below \<open>2 ^ 53\<close>, and a rounded size \<open>k / 100\<close> stands
  for the double nearest to it. \<^verbatim>\<open>min_mb\<close> is likewise the decimal the caller wrote; two
  decimals of at most 15 digits compare as their nearest doubles do.
\<close>

definition round_half_even :: "rat \<Rightarrow> int" where
  "round_half_even q =
     (let f = \<lfloor>q\<rfloor>; r = q - of_int f
      in if r < 1 / 2 then f
         else if 1 / 2 < r then f + 1
         else if even f then f else f + 1)"

definition py_round :: "rat \<Rightarrow> nat \<Rightarrow> rat" where
  "py_round x n = of_int (round_half_even (x * 10 ^ n)) / 10 ^ n"

section \<open>Naive datetimes\<close>

text \<open>
  A naive \<^verbatim>\<open>datetime\<close> is the number of microseconds since 0001-01-01T00:00:00, the
  smallest one; the largest is 9999-12-31T23:59:59.999999. \<^verbatim>\<open>timedelta(days=d)\<close> accepts
  at most 999999999 days either way, and a difference outside the range of \<^verbatim>\<open>datetime\<close>
  raises \<^verbatim>\<open>OverflowError\<close>.
\<close>

definition day_us :: int where
  "day_us = 86400000000"

definition dt_max :: int where
  "dt_max = 3652059 * day_us"

definition unix_epoch :: int where
  "unix_epoch = 719162 * day_us"

definition timedelta_days :: "int \<Rightarrow> error + int" where
  "timedelta_days d = (if \<bar>d\<bar> \<le> 999999999 then Inr (d * day_us) else Inl OverflowError)"

definition dt_sub :: "int \<Rightarrow> int \<Rightarrow> error + int" where
  "dt_sub t delta =
     (let r = t - delta in if 0 \<le> r \<and> r < dt_max then Inr r else Inl OverflowError)"

text \<open>
  What \<^verbatim>\<open>stale_apps\<close> reads from its surroundings: the clock \<^verbatim>\<open>dt.utcnow()\<close>, the naive
  local datetime \<^verbatim>\<open>dt.fromtimestamp(0)\<close> of the Unix epoch (\<open>unix_epoch\<close> on a host whose
  local time is UTC), and the library parser
  \<^verbatim>\<open>dt.strptime(s, '%Y-%m-%dT%H:%M:%S.%fZ')\<close>, \<open>None\<close> where it raises \<^verbatim>\<open>ValueError\<close>.
\<close>

record env =
  utcnow :: int
  fromtimestamp0 :: int
  strptime :: "string \<Rightarrow> int option"

section \<open>The retention evaluator\<close>

text \<open>
  An entry of the list \<^verbatim>\<open>stale_apps\<close> returns: the dictionary with the keys
  \<^verbatim>\<open>name\<close>, \<^verbatim>\<open>id\<close>, \<^verbatim>\<open>size_mb\<close> and \<^verbatim>\<open>last_reload\<close>.
\<close>

record stale =
  app_name :: pyval
  app_id :: pyval
  size_mb :: rat
  last_reload :: int

text \<open>\<^verbatim>\<open>doc['qMeta']['published']\<close>.\<close>

definition published :: "pyval \<Rightarrow> error + pyval" where
  "published doc =
     (case subscript doc ''qMeta'' of Inl e \<Rightarrow> Inl e | Inr m \<Rightarrow> subscript m ''published'')"

text \<open>\<^verbatim>\<open>p in (False, include_published)\<close>.\<close>

definition in_false_or :: "pyval \<Rightarrow> bool \<Rightarrow> bool" where
  "in_false_or p include_published \<longleftrightarrow> py_eq_bool p False \<or> py_eq_bool p include_published"

text \<open>The reload time of a document: lines 76 to 80.\<close>

definition reload_time :: "env \<Rightarrow> pyval \<Rightarrow> error + int" where
  "reload_time env doc =
     (case dict_get doc ''qLastReloadTime'' of
        Inl e \<Rightarrow> Inl e
      | Inr qLastReloadTime \<Rightarrow>
          if truthy qLastReloadTime then
            (case qLastReloadTime of
               PStr s \<Rightarrow> (case strptime env s of None \<Rightarrow> Inl ValueError | Some t \<Rightarrow> Inr t)
             | _ \<Rightarrow> Inl TypeError)
          else Inr (fromtimestamp0 env))"

text \<open>\<^verbatim>\<open>round(doc['qFileSize'] / 1024 / 1024, 2)\<close>.\<close>

definition file_size_mb :: "pyval \<Rightarrow> error + rat" where
  "file_size_mb doc =
     (case subscript doc ''qFileSize'' of
        Inl e \<Rightarrow> Inl e
      | Inr b \<Rightarrow> (case number b of Inl e \<Rightarrow> Inl e | Inr x \<Rightarrow> Inr (py_round (x / 1024 / 1024) 2)))"

text \<open>The dictionary appended for a stale document: lines 91 to 96.\<close>

definition stale_entry :: "pyval \<Rightarrow> int \<Rightarrow> error + stale" where
  "stale_entry doc t =
     (case subscript doc ''qDocName'' of
        Inl e \<Rightarrow> Inl e
      | Inr n \<Rightarrow>
          (case subscript doc ''qDocId'' of
             Inl e \<Rightarrow> Inl e
           | Inr i \<Rightarrow>
               (case file_size_mb doc of
                  Inl e \<Rightarrow> Inl e
                | Inr s \<Rightarrow> Inr \<lparr>app_name = n, app_id = i, size_mb = s, last_reload = t\<rparr>)))"

text \<open>One turn of the loop of \<^verbatim>\<open>stale_apps\<close> on \<open>doc\<close>, with the list \<open>apps\<close> built so far.\<close>

definition stale_step ::
  "env \<Rightarrow> int \<Rightarrow> rat \<Rightarrow> bool \<Rightarrow> pyval \<Rightarrow> stale list \<Rightarrow> error + stale list" where
  "stale_step env threshold min_mb include_published doc apps =
     (case published doc of
        Inl e \<Rightarrow> Inl e
      | Inr p \<Rightarrow>
          if in_false_or p include_published then
            (case reload_time env doc of
               Inl e \<Rightarrow> Inl e
             | Inr t \<Rightarrow>
                 if t < threshold then
                   (case file_size_mb doc of
                      Inl e \<Rightarrow> Inl e
                    | Inr sz \<Rightarrow>
                        if min_mb < sz then
                          (case stale_entry doc t of
                             Inl e \<Rightarrow> Inl e
                           | Inr a \<Rightarrow> Inr (apps @ [a]))
                        else Inr apps)
                 else Inr apps)
          else Inr apps)"

fun stale_loop ::
  "env \<Rightarrow> int \<Rightarrow> rat \<Rightarrow> bool \<Rightarrow> pyval list \<Rightarrow> stale list \<Rightarrow> error + stale list" where
  "stale_loop env threshold min_mb include_published [] apps = Inr apps"
| "stale_loop env threshold min_mb include_published (doc # docs) apps =
     (case stale_step env threshold min_mb include_published doc apps of
        Inl e \<Rightarrow> Inl e
      | Inr apps' \<Rightarrow> stale_loop env threshold min_mb include_published docs apps')"

text \<open>\<^verbatim>\<open>threshold = dt.utcnow() - timedelta(days=days_stale)\<close>.\<close>

definition threshold_of :: "env \<Rightarrow> int \<Rightarrow> error + int" where
  "threshold_of env days_stale =
     (case timedelta_days days_stale of
        Inl e \<Rightarrow> Inl e
      | Inr delta \<Rightarrow> dt_sub (utcnow env) delta)"

definition stale_apps ::
  "env \<Rightarrow> pyval list \<Rightarrow> int \<Rightarrow> rat \<Rightarrow> bool \<Rightarrow> error + stale list" where
  "stale_apps env app_list days_stale min_mb include_published =
     (case threshold_of env days_stale of
        Inl e \<Rightarrow> Inl e
      | Inr threshold \<Rightarrow> stale_loop env threshold min_mb include_published app_list [])"

text \<open>
  An entry of \<^verbatim>\<open>qDocList\<close> as \<^verbatim>\<open>GetDocList\<close> delivers it, with a reload time
  (\<open>Some\<close>) or without the key (\<open>None\<close>).
\<close>

definition doc_entry :: "string \<Rightarrow> string \<Rightarrow> pyval \<Rightarrow> int \<Rightarrow> pyval option \<Rightarrow> pyval" where
  "doc_entry n i p b q =
     PDict ([(''qDocName'', PStr n), (''qDocId'', PStr i),
             (''qMeta'', PDict [(''published'', p)]), (''qFileSize'', PInt b)]
            @ (case q of None \<Rightarrow> [] | Some v \<Rightarrow> [(''qLastReloadTime'', v)]))"

text \<open>A dictionary without one of its keys.\<close>

definition without_key :: "string \<Rightarrow> (string \<times> pyval) list \<Rightarrow> (string \<times> pyval) list" where
  "without_key k kvs = filter (\<lambda>kv. fst kv \<noteq> k) kvs"

section \<open>The websocket and the engine behind it\<close>

text \<open>
  The lines the script prints while it truncates: the progress line
  \<^verbatim>\<open>Truncating data from app: {_id}. {i}/{len(doc_ids)}.\<close>, kept as the three values it
  shows, and \<^verbatim>\<open>Done!\<close>.
\<close>

datatype line =
    Progress_line pyval nat nat
  | Done_line

text \<open>
  What happens on the wire and on the standard output is a log of events, oldest first.
  A connection is named by the length of the log at the moment it was opened. \<open>Sent\<close>
  records the dictionary handed to \<^verbatim>\<open>_communicate\<close> at the call of \<^verbatim>\<open>ws.send\<close>, \<open>Received\<close>
  the frame \<^verbatim>\<open>ws.recv\<close> returned, \<open>Printed\<close> a line written by \<^verbatim>\<open>print\<close>.
\<close>

datatype event =
    Opened nat string
  | Sent nat pyval
  | Received nat string
  | Closed nat
  | Printed line

text \<open>
  The websocket library, the engine at the other end and \<^verbatim>\<open>json.loads\<close> are parameters;
  each answer may depend on everything that happened before. \<open>accepts\<close> tells whether
  \<^verbatim>\<open>create_connection\<close> returns, \<open>delivers\<close> whether \<^verbatim>\<open>ws.send\<close> returns, \<open>next_frame\<close>
  what \<^verbatim>\<open>ws.recv\<close> returns (\<open>None\<close> where it raises), \<open>json_loads\<close> the decoded frame
  (\<open>None\<close> where it raises).
\<close>

record wire =
  accepts :: "event list \<Rightarrow> string \<Rightarrow> bool"
  delivers :: "event list \<Rightarrow> bool"
  next_frame :: "event list \<Rightarrow> string option"
  json_loads :: "string \<Rightarrow> pyval option"

text \<open>
  \<^verbatim>\<open>_connect\<close>: open the connection and consume the greeting frame. A failure of either
  raises; after a failed greeting the connection stays open.
\<close>

definition connect :: "wire \<Rightarrow> string \<Rightarrow> event list \<Rightarrow> (error + nat) \<times> event list" where
  "connect w hostname lg =
     (let url = ''wss://'' @ hostname @ '':4747/app/''
      in if accepts w lg url then
           (let ws = length lg; log1 = lg @ [Opened ws url]
            in case next_frame w log1 of
                 None \<Rightarrow> (Inl ConnectionError, log1)
               | Some f \<Rightarrow> (Inr ws, log1 @ [Received ws f]))
         else (Inl ConnectionError, lg))"

text \<open>\<^verbatim>\<open>_communicate\<close>: send the message, wait for one frame and decode it.\<close>

definition communicate ::
  "wire \<Rightarrow> nat \<Rightarrow> pyval \<Rightarrow> event list \<Rightarrow> (error + pyval) \<times> event list" where
  "communicate w ws message lg =
     (let log1 = lg @ [Sent ws message]
      in if delivers w log1 then
           (case next_frame w log1 of
              None \<Rightarrow> (Inl ConnectionError, log1)
            | Some f \<Rightarrow>
                (let log2 = log1 @ [Received ws f]
                 in case json_loads w f of
                      None \<Rightarrow> (Inl JSONDecodeError, log2)
                    | Some v \<Rightarrow> (Inr v, log2)))
         else (Inl ConnectionError, log1))"

section \<open>The reclamation driver\<close>

text \<open>The two call envelopes of \<^verbatim>\<open>drop_data_from_app\<close>.\<close>

definition open_doc_msg :: "pyval \<Rightarrow> pyval" where
  "open_doc_msg doc_id =
     PDict [(''handle'', PInt (- 1)), (''method'', PStr ''OpenDoc''),
            (''params'', PDict [(''qDocName'', doc_id), (''qNoData'', PBool True)])]"

definition do_save_msg :: "pyval \<Rightarrow> pyval" where
  "do_save_msg h =
     PDict [(''handle'', h), (''method'', PStr ''DoSave''),
            (''params'', PDict [(''qFileName'', PStr '''')])]"

text \<open>\<^verbatim>\<open>response['result']['qReturn'][k]\<close>.\<close>

definition q_return :: "pyval \<Rightarrow> string \<Rightarrow> error + pyval" where
  "q_return response k =
     (case subscript response ''result'' of
        Inl e \<Rightarrow> Inl e
      | Inr r \<Rightarrow> (case subscript r ''qReturn'' of Inl e \<Rightarrow> Inl e | Inr q \<Rightarrow> subscript q k))"

text \<open>
  \<^verbatim>\<open>drop_data_from_app\<close>: lines 101 to 134. It has no handler: an error of any step
  leaves the function at once, with the log as it is at that point.
\<close>

definition drop_data_from_app ::
  "wire \<Rightarrow> string \<Rightarrow> pyval \<Rightarrow> event list \<Rightarrow> (error + pyval) \<times> event list" where
  "drop_data_from_app w host doc_id lg =
     (case connect w host lg of
        (Inl e, log1) \<Rightarrow> (Inl e, log1)
      | (Inr websocket, log1) \<Rightarrow>
          (case communicate w websocket (open_doc_msg doc_id) log1 of
             (Inl e, log2) \<Rightarrow> (Inl e, log2)
           | (Inr response, log2) \<Rightarrow>
               (case q_return response ''qType'' of
                  Inl e \<Rightarrow> (Inl e, log2)
                | Inr ty \<Rightarrow>
                    if py_eq_str ty ''Doc'' then
                      (case q_return response ''qHandle'' of
                         Inl e \<Rightarrow> (Inl e, log2)
                       | Inr h \<Rightarrow>
                           (case communicate w websocket (do_save_msg h) log2 of
                              (Inl e, log3) \<Rightarrow> (Inl e, log3)
                            | (Inr response', log3) \<Rightarrow>
                                (Inr response', log3 @ [Closed websocket])))
                    else (Inr response, log2 @ [Closed websocket]))))"

text \<open>
  The loop of lines 235 to 238 over \<^verbatim>\<open>enumerate(doc_ids)\<close>, \<open>n\<close> being \<^verbatim>\<open>len(doc_ids)\<close>:
  each turn prints the progress line, calls \<^verbatim>\<open>drop_data_from_app\<close> and drops what it
  returns. There is no handler: an error of a call leaves the loop.
\<close>

fun truncate_loop ::
  "wire \<Rightarrow> string \<Rightarrow> nat \<Rightarrow> (nat \<times> pyval) list \<Rightarrow> event list \<Rightarrow> (error + unit) \<times> event list"
  where
  "truncate_loop w servername n [] lg = (Inr (), lg)"
| "truncate_loop w servername n ((i, doc_id) # rest) lg =
     (case drop_data_from_app w servername doc_id (lg @ [Printed (Progress_line doc_id i n)]) of
        (Inl e, lg') \<Rightarrow> (Inl e, lg')
      | (Inr r, lg') \<Rightarrow> truncate_loop w servername n rest lg')"

text \<open>Lines 233 to 240: the identifiers of the stale applications, the loop, \<^verbatim>\<open>Done!\<close>.\<close>

definition truncate ::
  "wire \<Rightarrow> string \<Rightarrow> stale list \<Rightarrow> event list \<Rightarrow> (error + unit) \<times> event list" where
  "truncate w servername stale_applications lg =
     (let doc_ids = map app_id stale_applications
      in case truncate_loop w servername (length doc_ids) (enumerate 0 doc_ids) lg of
           (Inl e, lg') \<Rightarrow> (Inl e, lg')
         | (Inr u, lg') \<Rightarrow> (Inr (), lg' @ [Printed Done_line]))"

text \<open>The messages sent in a log, and the documents whose opening was requested.\<close>

fun sent :: "event list \<Rightarrow> (nat \<times> pyval) list" where
  "sent [] = []"
| "sent (Sent ws m # evs) = (ws, m) # sent evs"
| "sent (e # evs) = sent evs"

fun opened_docs :: "(nat \<times> pyval) list \<Rightarrow> pyval list" where
  "opened_docs [] = []"
| "opened_docs ((ws, m) # ms) =
     (if subscript m ''method'' = Inr (PStr ''OpenDoc'') then
        (case subscript m ''params'' of
           Inl e \<Rightarrow> opened_docs ms
         | Inr ps \<Rightarrow>
             (case subscript ps ''qDocName'' of
                Inl e \<Rightarrow> opened_docs ms
              | Inr d \<Rightarrow> d # opened_docs ms))
      else opened_docs ms)"

text \<open>The lines printed in a log.\<close>

fun printed :: "event list \<Rightarrow> line list" where
  "printed [] = []"
| "printed (Printed l # evs) = l # printed evs"
| "printed (e # evs) = printed evs"

text \<open>The progress line of a pair of \<^verbatim>\<open>enumerate(doc_ids)\<close>.\<close>

definition progress :: "nat \<Rightarrow> nat \<times> pyval \<Rightarrow> line" where
  "progress n p = Progress_line (snd p) (fst p) n"

section \<open>Sample surroundings\<close>

text \<open>
  A host on UTC at 2026-11-06T00:00:00 whose parser knows one timestamp, 200 days earlier.
\<close>

definition sample_strptime :: "string \<Rightarrow> int option" where
  "sample_strptime s =
     (if s = ''2026-04-20T00:00:00.000000Z'' then Some (739725 * day_us) else None)"

definition sample_env :: env where
  "sample_env = \<lparr>utcnow = 739925 * day_us, fromtimestamp0 = unix_epoch,
                  strptime = sample_strptime\<rparr>"

text \<open>
  An engine that greets, answers \<^verbatim>\<open>OpenDoc\<close> with an opened document of handle 1, except
  for the document \<^verbatim>\<open>2\<close>, where it answers with the frame \<open>bad\<close>, and answers \<^verbatim>\<open>DoSave\<close>
  with an empty result. The frames are named rather than spelt out; \<open>sample_loads\<close> decodes
  them: \<open>error\<close> is an error reply (no \<^verbatim>\<open>result\<close>), \<open>nodoc\<close> a reply whose \<^verbatim>\<open>qType\<close> is
  not \<^verbatim>\<open>Doc\<close>.
\<close>

definition sample_loads :: "string \<Rightarrow> pyval option" where
  "sample_loads f =
     (if f = ''doc'' then
        Some (PDict [(''result'', PDict [(''qReturn'',
                PDict [(''qType'', PStr ''Doc''), (''qHandle'', PInt 1)])])])
      else if f = ''nodoc'' then
        Some (PDict [(''result'', PDict [(''qReturn'',
                PDict [(''qType'', PNone), (''qHandle'', PNone)])])])
      else if f = ''error'' then
        Some (PDict [(''error'', PDict [(''code'', PInt 1003)])])
      else if f = ''saved'' then
        Some (PDict [(''result'', PDict [])])
      else None)"

definition sample_frame :: "string \<Rightarrow> event list \<Rightarrow> string option" where
  "sample_frame bad lg =
     (case rev lg of
        Sent ws m # evs \<Rightarrow>
          if m = open_doc_msg (PStr ''2'') then Some bad
          else if subscript m ''method'' = Inr (PStr ''OpenDoc'') then Some ''doc''
          else Some ''saved''
      | _ \<Rightarrow> Some ''hello'')"

definition sample_wire :: "string \<Rightarrow> wire" where
  "sample_wire bad = \<lparr>accepts = (\<lambda>lg url. True), delivers = (\<lambda>lg. True),
                      next_frame = sample_frame bad, json_loads = sample_loads\<rparr>"

text \<open>
  The catalog of the end-to-end scenario, each document last reloaded 200 days ago, and the
  entry expected for its document \<^verbatim>\<open>A\<close>.
\<close>

definition sample_catalog :: "pyval list" where
  "sample_catalog =
     [doc_entry ''A'' ''1'' (PBool False) (2 * 1024 * 1024)
        (Some (PStr ''2026-04-20T00:00:00.000000Z'')),
      doc_entry ''B'' ''2'' (PBool True) (2 * 1024 * 1024)
        (Some (PStr ''2026-04-20T00:00:00.000000Z'')),
      doc_entry ''C'' ''3'' (PBool False) (500 * 1024)
        (Some (PStr ''2026-04-20T00:00:00.000000Z''))]"

definition sample_stale :: "string \<Rightarrow> string \<Rightarrow> rat \<Rightarrow> int \<Rightarrow> stale" where
  "sample_stale n i s t = \<lparr>app_name = PStr n, app_id = PStr i, size_mb = s, last_reload = t\<rparr>"

text \<open>The items of a 2 MB unpublished document whose reload time is \<open>q\<close>.\<close>

definition sample_items :: "pyval \<Rightarrow> (string \<times> pyval) list" where
  "sample_items q =
     [(''qDocName'', PStr ''A''), (''qDocId'', PStr ''1''),
      (''qMeta'', PDict [(''published'', PBool False)]),
      (''qFileSize'', PInt (2 * 1024 * 1024)), (''qLastReloadTime'', q)]"

section \<open>Properties of the retention evaluator\<close>

subsection \<open>The loop as a filter\<close>

lemma stale_step_acc:
  "stale_step env thr m ip doc apps =
     (case stale_step env thr m ip doc [] of Inl e \<Rightarrow> Inl e | Inr xs \<Rightarrow> Inr (apps @ xs))"
  by (simp add: stale_step_def split: sum.splits)

lemma stale_step_shape:
  "stale_step env thr m ip doc [] = Inr xs \<Longrightarrow> xs = [] \<or> (\<exists>a. xs = [a])"
  by (auto simp: stale_step_def split: sum.splits if_splits)

lemma stale_step_entry:
  "stale_step env thr m ip doc [] = Inr [a] \<longleftrightarrow>
     (\<exists>p t s. published doc = Inr p \<and> in_false_or p ip \<and> reload_time env doc = Inr t \<and>
        t < thr \<and> file_size_mb doc = Inr s \<and> m < s \<and> stale_entry doc t = Inr a)"
  by (auto simp: stale_step_def split: sum.splits if_splits)

lemma stale_entry_fields:
  "stale_entry doc t = Inr a \<Longrightarrow>
     subscript doc ''qDocName'' = Inr (app_name a) \<and> subscript doc ''qDocId'' = Inr (app_id a) \<and>
     file_size_mb doc = Inr (size_mb a) \<and> last_reload a = t"
  by (auto simp: stale_entry_def split: sum.splits)

lemma stale_loop_set:
  "stale_loop env thr m ip docs apps = Inr r \<Longrightarrow>
     set r = set apps \<union> {a. \<exists>doc\<in>set docs. stale_step env thr m ip doc [] = Inr [a]}"
proof (induction docs arbitrary: apps)
  case Nil
  then show ?case by simp
next
  case (Cons doc docs)
  from Cons.prems obtain apps' where
    step: "stale_step env thr m ip doc apps = Inr apps'" and
    rest: "stale_loop env thr m ip docs apps' = Inr r"
    by (auto split: sum.splits)
  from step obtain xs where xs: "stale_step env thr m ip doc [] = Inr xs" "apps' = apps @ xs"
    by (subst (asm) stale_step_acc) (auto split: sum.splits)
  have "set r = set apps' \<union> {a. \<exists>d\<in>set docs. stale_step env thr m ip d [] = Inr [a]}"
    using Cons.IH [OF rest] .
  moreover have "set xs = {a. stale_step env thr m ip doc [] = Inr [a]}"
    using stale_step_shape [OF xs(1)] xs(1) by auto
  ultimately show ?case using xs(2) by auto
qed

lemma stale_apps_set:
  "stale_apps env docs d m ip = Inr r \<Longrightarrow>
     \<exists>thr. threshold_of env d = Inr thr \<and>
       set r = {a. \<exists>doc\<in>set docs. stale_step env thr m ip doc [] = Inr [a]}"
  by (auto simp: stale_apps_def split: sum.splits dest!: stale_loop_set)

lemma threshold_of_value:
  "threshold_of env d = Inr thr \<Longrightarrow> thr = utcnow env - d * day_us"
  by (auto simp: threshold_of_def timedelta_days_def dt_sub_def Let_def split: if_splits)

lemma stale_apps_mem:
  assumes "stale_apps env docs d m ip = Inr r"
  shows "a \<in> set r \<longleftrightarrow>
     (\<exists>doc\<in>set docs. \<exists>p t s. published doc = Inr p \<and> in_false_or p ip \<and>
        reload_time env doc = Inr t \<and> t < utcnow env - d * day_us \<and>
        file_size_mb doc = Inr s \<and> m < s \<and> stale_entry doc t = Inr a)"
proof -
  from stale_apps_set [OF assms] obtain thr where
    thr: "threshold_of env d = Inr thr" and
    r: "set r = {a. \<exists>doc\<in>set docs. stale_step env thr m ip doc [] = Inr [a]}"
    by blast
  show ?thesis
    unfolding r stale_step_entry threshold_of_value [OF thr] by simp
qed

lemma stale_apps_single:
  assumes "threshold_of env d = Inr thr"
    and "published doc = Inr p" and "reload_time env doc = Inr t"
    and "stale_entry doc t = Inr a"
  shows "stale_apps env [doc] d m ip =
           Inr (if in_false_or p ip \<and> t < thr \<and> m < size_mb a then [a] else [])"
  using assms stale_entry_fields [OF assms(4)]
  by (simp add: stale_apps_def stale_step_def)

subsection \<open>Every returned entry passed the three filters\<close>

text \<open>
  Claim C1. Whatever the catalog, the policy and the clock, every entry of the list
  \<^verbatim>\<open>stale_apps\<close> returns comes from a document of the catalog whose rounded size is the
  entry's \<open>size_mb\<close> and exceeds \<open>min_mb\<close>, whose reload time is the entry's \<open>last_reload\<close>
  and lies before the clock minus \<open>days_stale\<close> days, and whose published flag equals
  \<^verbatim>\<open>False\<close> unless \<open>include_published\<close> is set.
\<close>

theorem stale_apps_filters:
  assumes "stale_apps env app_list days_stale min_mb include_published = Inr apps"
    and "a \<in> set apps"
  shows "\<exists>doc\<in>set app_list. \<exists>p.
           subscript doc ''qDocName'' = Inr (app_name a) \<and>
           subscript doc ''qDocId'' = Inr (app_id a) \<and>
           file_size_mb doc = Inr (size_mb a) \<and>
           reload_time env doc = Inr (last_reload a) \<and>
           published doc = Inr p \<and>
           min_mb < size_mb a \<and>
           last_reload a < utcnow env - days_stale * day_us \<and>
           (py_eq_bool p False \<or> include_published)"
proof -
  from assms(2) obtain doc p t s where
    doc: "doc \<in> set app_list" and
    f: "published doc = Inr p" "in_false_or p include_published" "reload_time env doc = Inr t"
       "t < utcnow env - days_stale * day_us" "file_size_mb doc = Inr s" "min_mb < s"
       "stale_entry doc t = Inr a"
    unfolding stale_apps_mem [OF assms(1)] by blast
  note e = stale_entry_fields [OF f(7)]
  have pub: "py_eq_bool p False \<or> include_published"
    using f(2) by (cases include_published) (auto simp: in_false_or_def)
  have "s = size_mb a" using e f(5) by simp
  then show ?thesis
    using doc e f pub by auto
qed

text \<open>The scenario catalog at 180 days, 1 MB, unpublished only: its one entry is as stated.\<close>

theorem stale_apps_filters_witness:
  "stale_apps sample_env sample_catalog 180 1 False =
     Inr [sample_stale ''A'' ''1'' 2 (739725 * day_us)] \<and>
   (\<exists>doc\<in>set sample_catalog. \<exists>p.
      subscript doc ''qDocName'' = Inr (app_name (sample_stale ''A'' ''1'' 2 (739725 * day_us))) \<and>
      subscript doc ''qDocId'' = Inr (app_id (sample_stale ''A'' ''1'' 2 (739725 * day_us))) \<and>
      file_size_mb doc = Inr (size_mb (sample_stale ''A'' ''1'' 2 (739725 * day_us))) \<and>
      reload_time sample_env doc =
        Inr (last_reload (sample_stale ''A'' ''1'' 2 (739725 * day_us))) \<and>
      published doc = Inr p \<and>
      1 < size_mb (sample_stale ''A'' ''1'' 2 (739725 * day_us)) \<and>
      last_reload (sample_stale ''A'' ''1'' 2 (739725 * day_us))
        < utcnow sample_env - 180 * day_us \<and>
      (py_eq_bool p False \<or> False))"
proof -
  have h: "stale_apps sample_env sample_catalog 180 1 False =
             Inr [sample_stale ''A'' ''1'' 2 (739725 * day_us)]"
    by code_simp
  have m: "sample_stale ''A'' ''1'' 2 (739725 * day_us)
             \<in> set [sample_stale ''A'' ''1'' 2 (739725 * day_us)]"
    by simp
  from h stale_apps_filters [OF h m] show ?thesis by (rule conjI)
qed

subsection \<open>The end-to-end scenario\<close>

text \<open>
  Claim C2. With the catalog of \<^verbatim>\<open>A\<close> (unpublished, 2 MB), \<^verbatim>\<open>B\<close> (published, 2 MB) and
  \<^verbatim>\<open>C\<close> (unpublished, 500 kB), all last reloaded 200 days before the clock, and the
  policy of 180 days, 1 MB, unpublished only, \<^verbatim>\<open>stale_apps\<close> returns the entry of \<^verbatim>\<open>A\<close>
  and nothing else. The timestamp is any non-empty string the parser reads as the clock
  minus 200 days; the clock is a datetime at least 180 days after the smallest one.
\<close>

theorem stale_apps_scenario:
  assumes "s \<noteq> []" and "strptime env s = Some (utcnow env - 200 * day_us)"
    and "180 * day_us \<le> utcnow env" and "utcnow env < dt_max"
  shows "stale_apps env
           [doc_entry ''A'' ''1'' (PBool False) (2 * 1024 * 1024) (Some (PStr s)),
            doc_entry ''B'' ''2'' (PBool True) (2 * 1024 * 1024) (Some (PStr s)),
            doc_entry ''C'' ''3'' (PBool False) (500 * 1024) (Some (PStr s))]
           180 1 False =
         Inr [\<lparr>app_name = PStr ''A'', app_id = PStr ''1'', size_mb = 2,
               last_reload = utcnow env - 200 * day_us\<rparr>]"
proof -
  have thr: "threshold_of env 180 = Inr (utcnow env - 180 * day_us)"
    using assms(3,4)
    by (simp add: threshold_of_def timedelta_days_def dt_sub_def Let_def dt_max_def day_us_def)
  have r: "round_half_even 200 = 200" "round_half_even (3125 / 64) = 49"
    by code_simp+
  show ?thesis
    using assms(1,2) r
    by (simp add: stale_apps_def thr stale_step_def doc_entry_def published_def in_false_or_def
        reload_time_def file_size_mb_def stale_entry_def py_round_def day_us_def)
qed

theorem stale_apps_scenario_witness:
  "stale_apps sample_env
     [doc_entry ''A'' ''1'' (PBool False) (2 * 1024 * 1024)
        (Some (PStr ''2026-04-20T00:00:00.000000Z'')),
      doc_entry ''B'' ''2'' (PBool True) (2 * 1024 * 1024)
        (Some (PStr ''2026-04-20T00:00:00.000000Z'')),
      doc_entry ''C'' ''3'' (PBool False) (500 * 1024)
        (Some (PStr ''2026-04-20T00:00:00.000000Z''))]
     180 1 False =
   Inr [\<lparr>app_name = PStr ''A'', app_id = PStr ''1'', size_mb = 2,
         last_reload = utcnow sample_env - 200 * day_us\<rparr>]"
proof -
  have 1: "''2026-04-20T00:00:00.000000Z'' \<noteq> []" by simp
  have 2: "strptime sample_env ''2026-04-20T00:00:00.000000Z'' =
             Some (utcnow sample_env - 200 * day_us)"
    by (simp add: sample_env_def sample_strptime_def day_us_def)
  have 3: "180 * day_us \<le> utcnow sample_env"
    by (simp add: sample_env_def day_us_def)
  have 4: "utcnow sample_env < dt_max"
    by (simp add: sample_env_def dt_max_def day_us_def)
  show ?thesis by (rule stale_apps_scenario [OF 1 2 3 4])
qed

subsection \<open>Monotonicity in the policy\<close>

lemma stale_loop_length_mono:
  assumes "\<And>doc xs ys. doc \<in> set docs \<Longrightarrow>
             stale_step env thr2 m2 ip2 doc [] = Inr ys \<Longrightarrow>
             stale_step env thr1 m1 ip1 doc [] = Inr xs \<Longrightarrow> length ys \<le> length xs"
    and "stale_loop env thr1 m1 ip1 docs apps1 = Inr r1"
    and "stale_loop env thr2 m2 ip2 docs apps2 = Inr r2"
  shows "length r2 + length apps1 \<le> length r1 + length apps2"
  using assms
proof (induction docs arbitrary: apps1 apps2)
  case Nil
  then show ?case by simp
next
  case (Cons doc docs)
  from Cons.prems(2) obtain a1 where
    s1: "stale_step env thr1 m1 ip1 doc apps1 = Inr a1" and
    l1: "stale_loop env thr1 m1 ip1 docs a1 = Inr r1"
    by (auto split: sum.splits)
  from Cons.prems(3) obtain a2 where
    s2: "stale_step env thr2 m2 ip2 doc apps2 = Inr a2" and
    l2: "stale_loop env thr2 m2 ip2 docs a2 = Inr r2"
    by (auto split: sum.splits)
  from s1 obtain xs where xs: "stale_step env thr1 m1 ip1 doc [] = Inr xs" "a1 = apps1 @ xs"
    by (subst (asm) stale_step_acc) (auto split: sum.splits)
  from s2 obtain ys where ys: "stale_step env thr2 m2 ip2 doc [] = Inr ys" "a2 = apps2 @ ys"
    by (subst (asm) stale_step_acc) (auto split: sum.splits)
  have le: "length ys \<le> length xs"
    using Cons.prems(1) [OF _ ys(1) xs(1)] by simp
  have "length r2 + length a1 \<le> length r1 + length a2"
  proof (rule Cons.IH [OF _ l1 l2])
    fix d xs' ys'
    assume "d \<in> set docs"
      and "stale_step env thr2 m2 ip2 d [] = Inr ys'"
      and "stale_step env thr1 m1 ip1 d [] = Inr xs'"
    then show "length ys' \<le> length xs'"
      using Cons.prems(1) [of d ys' xs'] by simp
  qed
  then show ?case using le xs(2) ys(2) by simp
qed

lemma stale_step_mono:
  assumes "thr2 \<le> thr1" and "m1 \<le> m2" and "ip2 \<longrightarrow> ip1"
    and "stale_step env thr2 m2 ip2 doc [] = Inr ys"
    and "stale_step env thr1 m1 ip1 doc [] = Inr xs"
  shows "length ys \<le> length xs"
proof (cases ys)
  case Nil
  then show ?thesis by simp
next
  case (Cons a as)
  with stale_step_shape [OF assms(4)] have ys: "ys = [a]" by auto
  from assms(4) [unfolded ys stale_step_entry] obtain p t s where
    f: "published doc = Inr p" "in_false_or p ip2" "reload_time env doc = Inr t"
       "t < thr2" "file_size_mb doc = Inr s" "m2 < s" "stale_entry doc t = Inr a"
    by blast
  have "in_false_or p ip1"
    using f(2) assms(3) by (cases ip1; cases ip2) (auto simp: in_false_or_def)
  then have "stale_step env thr1 m1 ip1 doc [] = Inr [a]"
    unfolding stale_step_entry using f assms(1,2) by auto
  with assms(5) ys show ?thesis by simp
qed

lemma stale_apps_length_mono:
  assumes "d1 \<le> d2" and "m1 \<le> m2" and "ip2 \<longrightarrow> ip1"
    and "stale_apps env docs d1 m1 ip1 = Inr r1"
    and "stale_apps env docs d2 m2 ip2 = Inr r2"
  shows "length r2 \<le> length r1"
proof -
  from assms(4) obtain t1 where
    t1: "threshold_of env d1 = Inr t1" "stale_loop env t1 m1 ip1 docs [] = Inr r1"
    by (auto simp: stale_apps_def split: sum.splits)
  from assms(5) obtain t2 where
    t2: "threshold_of env d2 = Inr t2" "stale_loop env t2 m2 ip2 docs [] = Inr r2"
    by (auto simp: stale_apps_def split: sum.splits)
  have "t2 \<le> t1"
    using threshold_of_value [OF t1(1)] threshold_of_value [OF t2(1)] assms(1)
    by (simp add: day_us_def)
  then have "length r2 + length ([]::stale list) \<le> length r1 + length ([]::stale list)"
    using stale_loop_length_mono [OF _ t1(2) t2(2)] stale_step_mono [OF _ assms(2,3)]
    by blast
  then show ?thesis by simp
qed

text \<open>
  Claim C3. For a fixed catalog and clock, and whenever both evaluations return a list:
  a larger \<open>days_stale\<close> returns no more entries, a larger \<open>min_mb\<close> returns no more
  entries, and \<open>include_published\<close> set returns no fewer entries than unset.
\<close>

theorem stale_apps_monotone:
  "(d1 \<le> d2 \<longrightarrow> stale_apps env docs d1 m ip = Inr r1 \<longrightarrow>
      stale_apps env docs d2 m ip = Inr r2 \<longrightarrow> length r2 \<le> length r1) \<and>
   (m1 \<le> m2 \<longrightarrow> stale_apps env docs d m1 ip = Inr r3 \<longrightarrow>
      stale_apps env docs d m2 ip = Inr r4 \<longrightarrow> length r4 \<le> length r3) \<and>
   (stale_apps env docs d m False = Inr r5 \<longrightarrow>
      stale_apps env docs d m True = Inr r6 \<longrightarrow> length r5 \<le> length r6)"
  using stale_apps_length_mono [of d1 d2 m m ip ip env docs r1 r2]
    stale_apps_length_mono [of d d m1 m2 ip ip env docs r3 r4]
    stale_apps_length_mono [of d d m m False True env docs r6 r5]
  by simp

text \<open>
  On the scenario catalog: 180 days against 30000 days, 1 MB against 3 MB, unpublished
  only against all.
\<close>

theorem stale_apps_monotone_witness:
  "(180::int) \<le> 30000 \<and> (1::rat) \<le> 3 \<and>
   stale_apps sample_env sample_catalog 180 1 False =
     Inr [sample_stale ''A'' ''1'' 2 (739725 * day_us)] \<and>
   stale_apps sample_env sample_catalog 30000 1 False = Inr [] \<and>
   stale_apps sample_env sample_catalog 180 3 False = Inr [] \<and>
   stale_apps sample_env sample_catalog 180 1 True =
     Inr [sample_stale ''A'' ''1'' 2 (739725 * day_us),
          sample_stale ''B'' ''2'' 2 (739725 * day_us)] \<and>
   length ([]::stale list) \<le> length [sample_stale ''A'' ''1'' 2 (739725 * day_us)] \<and>
   length [sample_stale ''A'' ''1'' 2 (739725 * day_us)]
     \<le> length [sample_stale ''A'' ''1'' 2 (739725 * day_us),
                sample_stale ''B'' ''2'' 2 (739725 * day_us)]"
proof -
  have a: "stale_apps sample_env sample_catalog 180 1 False =
             Inr [sample_stale ''A'' ''1'' 2 (739725 * day_us)]"
    by code_simp
  have b: "stale_apps sample_env sample_catalog 30000 1 False = Inr []"
    by code_simp
  have c: "stale_apps sample_env sample_catalog 180 3 False = Inr []"
    by code_simp
  have d: "stale_apps sample_env sample_catalog 180 1 True =
             Inr [sample_stale ''A'' ''1'' 2 (739725 * day_us),
                  sample_stale ''B'' ''2'' 2 (739725 * day_us)]"
    by code_simp
  show ?thesis
    using a b c d
      stale_apps_monotone [of 180 30000 sample_env sample_catalog 1 False
        "[sample_stale ''A'' ''1'' 2 (739725 * day_us)]" "[]" 1 3 180
        "[sample_stale ''A'' ''1'' 2 (739725 * day_us)]" "[]"
        "[sample_stale ''A'' ''1'' 2 (739725 * day_us)]"
        "[sample_stale ''A'' ''1'' 2 (739725 * day_us),
          sample_stale ''B'' ''2'' 2 (739725 * day_us)]"]
    by simp
qed

subsection \<open>Documents without a reload time\<close>

text \<open>
  Claim C4 (amended). A document without a reload time, passing the publication and size
  tests, gets the reload time \<^verbatim>\<open>dt.fromtimestamp(0)\<close>, and its entry is returned exactly
  when that time lies before the clock minus \<open>days_stale\<close> days: for every \<open>days_stale\<close>
  short of the days elapsed since the epoch, not for every \<open>days_stale\<close>.
\<close>

theorem missing_reload_time_stale_iff:
  assumes "doc \<in> set app_list" and "dict_get doc ''qLastReloadTime'' = Inr PNone"
    and "published doc = Inr p" and "in_false_or p include_published"
    and "stale_entry doc (fromtimestamp0 env) = Inr a" and "min_mb < size_mb a"
    and "stale_apps env app_list days_stale min_mb include_published = Inr apps"
  shows "reload_time env doc = Inr (fromtimestamp0 env) \<and>
         (a \<in> set apps \<longleftrightarrow> fromtimestamp0 env < utcnow env - days_stale * day_us)"
proof -
  have rt: "reload_time env doc = Inr (fromtimestamp0 env)"
    using assms(2) by (simp add: reload_time_def)
  note e = stale_entry_fields [OF assms(5)]
  have "a \<in> set apps \<longleftrightarrow> fromtimestamp0 env < utcnow env - days_stale * day_us"
  proof
    assume "a \<in> set apps"
    then obtain doc' t where "t < utcnow env - days_stale * day_us"
      "stale_entry doc' t = Inr a"
      unfolding stale_apps_mem [OF assms(7)] by blast
    then show "fromtimestamp0 env < utcnow env - days_stale * day_us"
      using stale_entry_fields [of doc' t a] e by simp
  next
    assume "fromtimestamp0 env < utcnow env - days_stale * day_us"
    then show "a \<in> set apps"
      unfolding stale_apps_mem [OF assms(7)]
      using assms(1,3,4,5,6) rt e by blast
  qed
  with rt show ?thesis by simp
qed

text \<open>An undated document of 2 MB at 180 days: returned, with the epoch as its reload time.\<close>

theorem missing_reload_time_stale_iff_witness:
  "reload_time sample_env (doc_entry ''A'' ''1'' (PBool False) (2 * 1024 * 1024) None) =
     Inr (fromtimestamp0 sample_env) \<and>
   (sample_stale ''A'' ''1'' 2 unix_epoch \<in> set [sample_stale ''A'' ''1'' 2 unix_epoch]) =
   (fromtimestamp0 sample_env < utcnow sample_env - 180 * day_us)"
proof -
  let ?doc = "doc_entry ''A'' ''1'' (PBool False) (2 * 1024 * 1024) None"
  have 1: "?doc \<in> set [?doc]" by simp
  have 2: "dict_get ?doc ''qLastReloadTime'' = Inr PNone" by code_simp
  have 3: "published ?doc = Inr (PBool False)" by code_simp
  have 4: "in_false_or (PBool False) False" by code_simp
  have 5: "stale_entry ?doc (fromtimestamp0 sample_env) = Inr (sample_stale ''A'' ''1'' 2 unix_epoch)"
    by code_simp
  have 6: "1 < size_mb (sample_stale ''A'' ''1'' 2 unix_epoch)" by code_simp
  have 7: "stale_apps sample_env [?doc] 180 1 False = Inr [sample_stale ''A'' ''1'' 2 unix_epoch]"
    by code_simp
  show ?thesis by (rule missing_reload_time_stale_iff [OF 1 2 3 4 5 6 7])
qed

text \<open>
  As first stated (stale whatever \<open>days_stale\<close> is) the property fails: the same document
  is returned at 180 days and left out at 30000 days, which reach back before 1970.
\<close>

theorem missing_reload_time_counterexample:
  "stale_apps sample_env [doc_entry ''A'' ''1'' (PBool False) (2 * 1024 * 1024) None]
     180 1 False = Inr [sample_stale ''A'' ''1'' 2 unix_epoch] \<and>
   stale_apps sample_env [doc_entry ''A'' ''1'' (PBool False) (2 * 1024 * 1024) None]
     30000 1 False = Inr []"
  by code_simp

subsection \<open>The size floor\<close>

text \<open>
  Claim C5 (amended). For a document passing the publication and staleness tests, the
  entry is returned exactly when its rounded size exceeds \<open>min_mb\<close>; a rounded size equal
  to \<open>min_mb\<close> is left out. One more byte changes the outcome only where it moves the
  rounded size past \<open>min_mb\<close>.
\<close>

theorem size_floor_strict:
  assumes "doc \<in> set app_list"
    and "published doc = Inr p" and "in_false_or p include_published"
    and "reload_time env doc = Inr t" and "t < utcnow env - days_stale * day_us"
    and "stale_entry doc t = Inr a"
    and "stale_apps env app_list days_stale min_mb include_published = Inr apps"
  shows "file_size_mb doc = Inr (size_mb a) \<and> (a \<in> set apps \<longleftrightarrow> min_mb < size_mb a) \<and>
         (size_mb a = min_mb \<longrightarrow> a \<notin> set apps)"
proof -
  note e = stale_entry_fields [OF assms(6)]
  have "a \<in> set apps \<longleftrightarrow> min_mb < size_mb a"
  proof
    assume "a \<in> set apps"
    then obtain doc' t' s' where "file_size_mb doc' = Inr s'" "min_mb < s'"
      "stale_entry doc' t' = Inr a"
      unfolding stale_apps_mem [OF assms(7)] by blast
    then show "min_mb < size_mb a"
      using stale_entry_fields [of doc' t' a] by simp
  next
    assume "min_mb < size_mb a"
    then show "a \<in> set apps"
      unfolding stale_apps_mem [OF assms(7)]
      using assms(1-6) e by blast
  qed
  with e show ?thesis by auto
qed

text \<open>
  1053818 bytes round to 1.0 MB and 1053819 bytes to 1.01 MB: at 1 MB the first is left
  out and the second returned.
\<close>

theorem size_floor_strict_witness:
  "file_size_mb (doc_entry ''A'' ''1'' (PBool False) 1053819 None) = Inr (101 / 100) \<and>
   stale_apps sample_env [doc_entry ''A'' ''1'' (PBool False) 1053819 None] 180 1 False =
     Inr [sample_stale ''A'' ''1'' (101 / 100) unix_epoch] \<and>
   file_size_mb (doc_entry ''A'' ''1'' (PBool False) 1053818 None) = Inr 1 \<and>
   sample_stale ''A'' ''1'' 1 unix_epoch \<notin> set []"
proof -
  let ?d1 = "doc_entry ''A'' ''1'' (PBool False) 1053819 None"
  let ?d0 = "doc_entry ''A'' ''1'' (PBool False) 1053818 None"
  have p1: "published ?d1 = Inr (PBool False)" and p0: "published ?d0 = Inr (PBool False)"
    by code_simp+
  have f: "in_false_or (PBool False) False" by code_simp
  have r1: "reload_time sample_env ?d1 = Inr unix_epoch"
    and r0: "reload_time sample_env ?d0 = Inr unix_epoch"
    by code_simp+
  have t: "unix_epoch < utcnow sample_env - 180 * day_us" by code_simp
  have e1: "stale_entry ?d1 unix_epoch = Inr (sample_stale ''A'' ''1'' (101 / 100) unix_epoch)"
    and e0: "stale_entry ?d0 unix_epoch = Inr (sample_stale ''A'' ''1'' 1 unix_epoch)"
    by code_simp+
  have s1: "stale_apps sample_env [?d1] 180 1 False =
              Inr [sample_stale ''A'' ''1'' (101 / 100) unix_epoch]"
    and s0: "stale_apps sample_env [?d0] 180 1 False = Inr []"
    by code_simp+
  have m1: "?d1 \<in> set [?d1]" and m0: "?d0 \<in> set [?d0]" by simp_all
  have z: "size_mb (sample_stale ''A'' ''1'' 1 unix_epoch) = 1"
    "size_mb (sample_stale ''A'' ''1'' (101 / 100) unix_epoch) = 101 / 100"
    by (simp_all add: sample_stale_def)
  show ?thesis
    using size_floor_strict [OF m1 p1 f r1 t e1 s1] size_floor_strict [OF m0 p0 f r0 t e0 s0]
      s1 z
    by simp
qed

text \<open>
  As first stated (one byte above a size equal to \<open>min_mb\<close> is returned) the property
  fails: 1048576 bytes are 1.0 MB, and 1048577 bytes round to 1.0 MB as well; at 1 MB
  both are left out.
\<close>

theorem size_floor_next_byte_counterexample:
  "file_size_mb (doc_entry ''A'' ''1'' (PBool False) 1048576 None) = Inr 1 \<and>
   stale_apps sample_env [doc_entry ''A'' ''1'' (PBool False) 1048576 None] 180 1 False =
     Inr [] \<and>
   stale_apps sample_env [doc_entry ''A'' ''1'' (PBool False) (1048576 + 1) None] 180 1 False =
     Inr [] \<and>
   stale_apps sample_env [doc_entry ''A'' ''1'' (PBool False) (1048576 + 1) None] 180 0 False =
     Inr [sample_stale ''A'' ''1'' 1 unix_epoch]"
  by code_simp

subsection \<open>The publication test\<close>

text \<open>
  Claim C6 (amended). For a document passing the staleness and size tests, the entry is
  returned exactly when its published value compares equal to \<^verbatim>\<open>False\<close> or to
  \<open>include_published\<close>. For a boolean value that is: published is false, or
  \<open>include_published\<close> is set. A value equal to neither \<^verbatim>\<open>False\<close> nor \<^verbatim>\<open>True\<close> is never
  let through, also when \<open>include_published\<close> is set.
\<close>

theorem published_filter_equality:
  assumes "threshold_of env days_stale = Inr thr"
    and "published doc = Inr p"
    and "reload_time env doc = Inr t" and "t < thr"
    and "stale_entry doc t = Inr a" and "min_mb < size_mb a"
  shows "stale_apps env [doc] days_stale min_mb include_published =
           Inr (if py_eq_bool p False \<or> py_eq_bool p include_published then [a] else []) \<and>
         (p = PBool b \<longrightarrow>
            stale_apps env [doc] days_stale min_mb include_published =
              Inr (if \<not> b \<or> include_published then [a] else [])) \<and>
         (\<not> py_eq_bool p False \<and> \<not> py_eq_bool p True \<longrightarrow>
            stale_apps env [doc] days_stale min_mb include_published = Inr [])"
proof -
  have g: "stale_apps env [doc] days_stale min_mb include_published =
             Inr (if py_eq_bool p False \<or> py_eq_bool p include_published then [a] else [])"
    using stale_apps_single [OF assms(1,2,3,5)] assms(4,6) by (simp add: in_false_or_def)
  have "p = PBool b \<Longrightarrow>
          stale_apps env [doc] days_stale min_mb include_published =
            Inr (if \<not> b \<or> include_published then [a] else [])"
    using g by (cases include_published) auto
  moreover have "\<not> py_eq_bool p False \<Longrightarrow> \<not> py_eq_bool p True \<Longrightarrow>
          stale_apps env [doc] days_stale min_mb include_published = Inr []"
    using g by (cases include_published) auto
  ultimately show ?thesis using g by blast
qed

text \<open>A published document with \<open>include_published\<close> set, and a document flagged \<^verbatim>\<open>None\<close>.\<close>

theorem published_filter_equality_witness:
  "stale_apps sample_env [doc_entry ''B'' ''2'' (PBool True) (2 * 1024 * 1024) None]
     180 1 True = Inr [sample_stale ''B'' ''2'' 2 unix_epoch] \<and>
   stale_apps sample_env [doc_entry ''B'' ''2'' PNone (2 * 1024 * 1024) None]
     180 1 True = Inr []"
proof -
  let ?b = "doc_entry ''B'' ''2'' (PBool True) (2 * 1024 * 1024) None"
  let ?n = "doc_entry ''B'' ''2'' PNone (2 * 1024 * 1024) None"
  have th: "threshold_of sample_env 180 = Inr (739745 * day_us)" by code_simp
  have pb: "published ?b = Inr (PBool True)" and pn: "published ?n = Inr PNone"
    by code_simp+
  have rb: "reload_time sample_env ?b = Inr unix_epoch"
    and rn: "reload_time sample_env ?n = Inr unix_epoch"
    by code_simp+
  have t: "unix_epoch < 739745 * day_us" by code_simp
  have eb: "stale_entry ?b unix_epoch = Inr (sample_stale ''B'' ''2'' 2 unix_epoch)"
    and en: "stale_entry ?n unix_epoch = Inr (sample_stale ''B'' ''2'' 2 unix_epoch)"
    by code_simp+
  have s: "1 < size_mb (sample_stale ''B'' ''2'' 2 unix_epoch)" by code_simp
  show ?thesis
    using published_filter_equality [OF th pb rb t eb s, of True True]
      published_filter_equality [OF th pn rn t en s, of True True]
    by simp
qed

text \<open>
  As first stated (let through whenever \<open>include_published\<close> is set, whatever the value)
  the property fails: a document whose published value is the string \<^verbatim>\<open>true\<close> is left
  out with \<open>include_published\<close> set, where the same document flagged \<^verbatim>\<open>True\<close> is returned.
\<close>

theorem published_filter_counterexample:
  "stale_apps sample_env [doc_entry ''B'' ''2'' (PStr ''true'') (2 * 1024 * 1024) None]
     180 1 True = Inr [] \<and>
   stale_apps sample_env [doc_entry ''B'' ''2'' (PBool True) (2 * 1024 * 1024) None]
     180 1 True = Inr [sample_stale ''B'' ''2'' 2 unix_epoch]"
  by code_simp

subsection \<open>An empty reload time\<close>

lemma map_of_without_key:
  "map_of (without_key k0 kvs) k = (if k = k0 then None else map_of kvs k)"
  by (induction kvs) (auto simp: without_key_def)

lemma stale_step_falsy:
  assumes "map_of kvs ''qLastReloadTime'' = Some q" and "\<not> truthy q"
  shows "stale_step env thr m ip (PDict kvs) apps =
         stale_step env thr m ip (PDict (without_key ''qLastReloadTime'' kvs)) apps"
proof -
  let ?d = "PDict (without_key ''qLastReloadTime'' kvs)"
  have p: "published ?d = published (PDict kvs)"
    by (simp add: published_def map_of_without_key)
  have r: "reload_time env ?d = Inr (fromtimestamp0 env)"
    "reload_time env (PDict kvs) = Inr (fromtimestamp0 env)"
    using assms by (simp_all add: reload_time_def map_of_without_key)
  have f: "file_size_mb ?d = file_size_mb (PDict kvs)"
    by (simp add: file_size_mb_def map_of_without_key)
  have e: "stale_entry ?d = stale_entry (PDict kvs)"
    by (auto simp: stale_entry_def file_size_mb_def map_of_without_key fun_eq_iff
        split: sum.splits option.splits)
  show ?thesis
    unfolding stale_step_def p r f e by (rule refl)
qed

lemma stale_loop_falsy:
  assumes "map_of kvs ''qLastReloadTime'' = Some q" and "\<not> truthy q"
  shows "stale_loop env thr m ip (xs @ PDict kvs # ys) apps =
         stale_loop env thr m ip (xs @ PDict (without_key ''qLastReloadTime'' kvs) # ys) apps"
proof (induction xs arbitrary: apps)
  case Nil
  show ?case using stale_step_falsy [OF assms] by simp
next
  case (Cons x xs)
  then show ?case by (simp split: sum.splits)
qed

text \<open>
  Claim C10 (amended). A document whose reload time is present but falsy (the empty string,
  \<^verbatim>\<open>None\<close>, 0) is not parsed, whatever the parser would do: its reload time is
  \<^verbatim>\<open>dt.fromtimestamp(0)\<close>, and \<^verbatim>\<open>stale_apps\<close> returns for any catalog holding it what it
  returns for the catalog with the key removed from that document. Where it passes the
  publication and size tests, its entry is returned exactly when \<^verbatim>\<open>dt.fromtimestamp(0)\<close>
  lies before the clock minus \<open>days_stale\<close> days: it is as stale as the epoch, not stale
  whatever \<open>days_stale\<close> is.
\<close>

theorem falsy_reload_time_as_missing:
  assumes "map_of kvs ''qLastReloadTime'' = Some q" and "\<not> truthy q"
  shows "reload_time env (PDict kvs) = Inr (fromtimestamp0 env) \<and>
         reload_time env (PDict (without_key ''qLastReloadTime'' kvs)) =
           Inr (fromtimestamp0 env) \<and>
         stale_apps env (xs @ PDict kvs # ys) days_stale min_mb include_published =
         stale_apps env (xs @ PDict (without_key ''qLastReloadTime'' kvs) # ys)
           days_stale min_mb include_published \<and>
         (published (PDict kvs) = Inr p \<longrightarrow> in_false_or p include_published \<longrightarrow>
          stale_entry (PDict kvs) (fromtimestamp0 env) = Inr a \<longrightarrow> min_mb < size_mb a \<longrightarrow>
          stale_apps env (xs @ PDict kvs # ys) days_stale min_mb include_published = Inr apps \<longrightarrow>
            (a \<in> set apps \<longleftrightarrow> fromtimestamp0 env < utcnow env - days_stale * day_us))"
proof -
  have rt: "reload_time env (PDict kvs) = Inr (fromtimestamp0 env)"
    using assms by (simp add: reload_time_def)
  have same: "reload_time env (PDict kvs) = Inr (fromtimestamp0 env) \<and>
         reload_time env (PDict (without_key ''qLastReloadTime'' kvs)) =
           Inr (fromtimestamp0 env) \<and>
         stale_apps env (xs @ PDict kvs # ys) days_stale min_mb include_published =
         stale_apps env (xs @ PDict (without_key ''qLastReloadTime'' kvs) # ys)
           days_stale min_mb include_published"
    using assms stale_loop_falsy [OF assms]
    by (simp add: reload_time_def stale_apps_def map_of_without_key split: sum.splits)
  have iff: "a \<in> set apps \<longleftrightarrow> fromtimestamp0 env < utcnow env - days_stale * day_us"
    if p: "published (PDict kvs) = Inr p" "in_false_or p include_published"
      and e: "stale_entry (PDict kvs) (fromtimestamp0 env) = Inr a" and s: "min_mb < size_mb a"
      and r: "stale_apps env (xs @ PDict kvs # ys) days_stale min_mb include_published = Inr apps"
  proof
    assume "a \<in> set apps"
    then obtain doc' t where "t < utcnow env - days_stale * day_us"
      "stale_entry doc' t = Inr a"
      unfolding stale_apps_mem [OF r] by blast
    then show "fromtimestamp0 env < utcnow env - days_stale * day_us"
      using stale_entry_fields [of doc' t a] stale_entry_fields [OF e] by simp
  next
    assume b: "fromtimestamp0 env < utcnow env - days_stale * day_us"
    have m: "PDict kvs \<in> set (xs @ PDict kvs # ys)" by simp
    show "a \<in> set apps"
      unfolding stale_apps_mem [OF r]
      using m p rt b e s stale_entry_fields [OF e] by blast
  qed
  from same iff show ?thesis by blast
qed

text \<open>
  A 2 MB document with the empty string as reload time, on a host whose parser rejects
  the empty string: at 180 days it is returned with the epoch as its reload time.
\<close>

theorem falsy_reload_time_as_missing_witness:
  "sample_strptime '''' = None \<and>
   stale_apps sample_env ([] @ PDict (sample_items (PStr '''')) # []) 180 1 False =
     Inr [sample_stale ''A'' ''1'' 2 unix_epoch] \<and>
   reload_time sample_env (PDict (sample_items (PStr ''''))) =
     Inr (fromtimestamp0 sample_env) \<and>
   reload_time sample_env
     (PDict (without_key ''qLastReloadTime'' (sample_items (PStr '''')))) =
     Inr (fromtimestamp0 sample_env) \<and>
   stale_apps sample_env ([] @ PDict (sample_items (PStr '''')) # []) 180 1 False =
   stale_apps sample_env
     ([] @ PDict (without_key ''qLastReloadTime'' (sample_items (PStr ''''))) # [])
     180 1 False \<and>
   (sample_stale ''A'' ''1'' 2 unix_epoch \<in> set [sample_stale ''A'' ''1'' 2 unix_epoch]) =
   (fromtimestamp0 sample_env < utcnow sample_env - 180 * day_us)"
proof -
  let ?doc = "PDict (sample_items (PStr ''''))"
  have 0: "sample_strptime '''' = None" by (simp add: sample_strptime_def)
  have 1: "map_of (sample_items (PStr '''')) ''qLastReloadTime'' = Some (PStr '''')"
    by (simp add: sample_items_def)
  have 2: "\<not> truthy (PStr '''')" by simp
  have 3: "stale_apps sample_env ([] @ ?doc # []) 180 1 False =
             Inr [sample_stale ''A'' ''1'' 2 unix_epoch]"
    by code_simp
  have 4: "published ?doc = Inr (PBool False)" by code_simp
  have 5: "in_false_or (PBool False) False" by code_simp
  have 6: "stale_entry ?doc (fromtimestamp0 sample_env) =
             Inr (sample_stale ''A'' ''1'' 2 unix_epoch)"
    by code_simp
  have 7: "1 < size_mb (sample_stale ''A'' ''1'' 2 unix_epoch)" by code_simp
  from 0 3 4 5 6 7
    falsy_reload_time_as_missing [OF 1 2, where env = sample_env and p = "PBool False"
      and include_published = False and a = "sample_stale ''A'' ''1'' 2 unix_epoch"
      and min_mb = 1 and xs = "[]" and ys = "[]" and days_stale = 180
      and apps = "[sample_stale ''A'' ''1'' 2 unix_epoch]"]
  show ?thesis by blast
qed

text \<open>
  As first stated (stale whatever \<open>days_stale\<close> is) the property fails: the document with
  the empty reload time is returned at 180 days and left out at 30000 days.
\<close>

theorem falsy_reload_time_counterexample:
  "stale_apps sample_env [PDict (sample_items (PStr ''''))] 180 1 False =
     Inr [sample_stale ''A'' ''1'' 2 unix_epoch] \<and>
   stale_apps sample_env [PDict (sample_items (PStr ''''))] 30000 1 False = Inr []"
  by code_simp

section \<open>Properties of the reclamation driver\<close>

subsection \<open>What one call appends to the log\<close>

lemma sent_append: "sent (xs @ ys) = sent xs @ sent ys"
  by (induction xs rule: sent.induct) auto

lemma opened_docs_append: "opened_docs (xs @ ys) = opened_docs xs @ opened_docs ys"
  by (induction xs rule: opened_docs.induct) (auto split: sum.splits)

lemma connect_cases:
  assumes "connect w host lg = (res, lg1)"
  shows "(res = Inl ConnectionError \<and>
            (lg1 = lg \<or> lg1 = lg @ [Opened (length lg) (''wss://'' @ host @ '':4747/app/'')])) \<or>
         (\<exists>f. res = Inr (length lg) \<and>
            lg1 = lg @ [Opened (length lg) (''wss://'' @ host @ '':4747/app/''),
                        Received (length lg) f])"
  using assms by (auto simp: connect_def Let_def split: if_splits option.splits)

lemma communicate_cases:
  assumes "communicate w ws msg lg = (res, lg1)"
  shows "(\<exists>e. res = Inl e \<and>
            (lg1 = lg @ [Sent ws msg] \<or> (\<exists>f. lg1 = lg @ [Sent ws msg, Received ws f]))) \<or>
         (\<exists>v f. res = Inr v \<and> lg1 = lg @ [Sent ws msg, Received ws f])"
  using assms by (auto simp: communicate_def Let_def split: if_splits option.splits)

lemma drop_returns:
  assumes "drop_data_from_app w host doc_id lg = (Inr r, lg')"
  shows "\<exists>f g. lg' = lg @ [Opened (length lg) (''wss://'' @ host @ '':4747/app/''),
                   Received (length lg) f, Sent (length lg) (open_doc_msg doc_id),
                   Received (length lg) g, Closed (length lg)] \<or>
         (\<exists>h k. lg' = lg @ [Opened (length lg) (''wss://'' @ host @ '':4747/app/''),
                   Received (length lg) f, Sent (length lg) (open_doc_msg doc_id),
                   Received (length lg) g, Sent (length lg) (do_save_msg h),
                   Received (length lg) k, Closed (length lg)])"
proof -
  from assms obtain ws lg1 where c: "connect w host lg = (Inr ws, lg1)"
    by (auto simp: drop_data_from_app_def split: prod.splits sum.splits)
  from connect_cases [OF c] obtain f where
    ws: "ws = length lg" and
    lg1: "lg1 = lg @ [Opened (length lg) (''wss://'' @ host @ '':4747/app/''),
                      Received (length lg) f]"
    by auto
  from assms c obtain response lg2 where
    o: "communicate w ws (open_doc_msg doc_id) lg1 = (Inr response, lg2)"
    by (auto simp: drop_data_from_app_def split: prod.splits sum.splits)
  from communicate_cases [OF o] obtain g where
    lg2: "lg2 = lg1 @ [Sent ws (open_doc_msg doc_id), Received ws g]"
    by auto
  from assms c o obtain ty where ty: "q_return response ''qType'' = Inr ty"
    by (auto simp: drop_data_from_app_def split: prod.splits sum.splits)
  show ?thesis
  proof (cases "py_eq_str ty ''Doc''")
    case False
    with assms c o ty have "lg' = lg2 @ [Closed ws]"
      by (simp add: drop_data_from_app_def)
    then show ?thesis using ws lg1 lg2 by auto
  next
    case True
    with assms c o ty obtain h where h: "q_return response ''qHandle'' = Inr h"
      by (auto simp: drop_data_from_app_def split: prod.splits sum.splits)
    with assms c o ty True obtain r' lg3 where
      s: "communicate w ws (do_save_msg h) lg2 = (Inr r', lg3)" and
      e: "lg' = lg3 @ [Closed ws]"
      by (auto simp: drop_data_from_app_def split: prod.splits sum.splits)
    from communicate_cases [OF s] obtain k where
      "lg3 = lg2 @ [Sent ws (do_save_msg h), Received ws k]"
      by auto
    then show ?thesis using ws lg1 lg2 e by auto
  qed
qed

lemma drop_raises:
  assumes "drop_data_from_app w host doc_id lg = (Inl e, lg')"
  shows "\<exists>evs. lg' = lg @ evs \<and> Closed (length lg) \<notin> set evs"
proof -
  obtain c lg1 where c: "connect w host lg = (c, lg1)" by force
  note cc = connect_cases [OF c]
  show ?thesis
  proof (cases c)
    case (Inl e1)
    with assms c have "lg' = lg1" by (simp add: drop_data_from_app_def)
    then show ?thesis using cc Inl by auto
  next
    case (Inr ws)
    with cc obtain f where
      ws: "ws = length lg" and
      lg1: "lg1 = lg @ [Opened (length lg) (''wss://'' @ host @ '':4747/app/''),
                        Received (length lg) f]"
      by auto
    obtain rep lg2 where o: "communicate w ws (open_doc_msg doc_id) lg1 = (rep, lg2)" by force
    note oc = communicate_cases [OF o]
    show ?thesis
    proof (cases rep)
      case (Inl e2)
      with assms c Inr o have "lg' = lg2" by (simp add: drop_data_from_app_def)
      then show ?thesis using oc Inl lg1 by auto
    next
      case r: (Inr response)
      with oc obtain g where lg2: "lg2 = lg1 @ [Sent ws (open_doc_msg doc_id), Received ws g]"
        by auto
      show ?thesis
      proof (cases "q_return response ''qType''")
        case (Inl e3)
        with assms c Inr o r have "lg' = lg2" by (simp add: drop_data_from_app_def)
        then show ?thesis using lg1 lg2 by auto
      next
        case t: (Inr ty)
        show ?thesis
        proof (cases "py_eq_str ty ''Doc''")
          case False
          with assms c Inr o r t show ?thesis by (simp add: drop_data_from_app_def)
        next
          case True
          show ?thesis
          proof (cases "q_return response ''qHandle''")
            case (Inl e4)
            with assms c Inr o r t True have "lg' = lg2" by (simp add: drop_data_from_app_def)
            then show ?thesis using lg1 lg2 by auto
          next
            case h: (Inr h)
            obtain s lg3 where s: "communicate w ws (do_save_msg h) lg2 = (s, lg3)" by force
            from assms c Inr o r t True h s have "lg' = lg3 \<and> (\<exists>e5. s = Inl e5)"
              by (cases s) (auto simp: drop_data_from_app_def)
            then show ?thesis using communicate_cases [OF s] lg1 lg2 by auto
          qed
        qed
      qed
    qed
  qed
qed

lemma drop_opened_docs:
  assumes "drop_data_from_app w host doc_id lg = (Inr r, lg')"
  shows "opened_docs (sent lg') = opened_docs (sent lg) @ [doc_id]"
  using drop_returns [OF assms]
  by (auto simp: sent_append opened_docs_append open_doc_msg_def do_save_msg_def)

lemma printed_append: "printed (xs @ ys) = printed xs @ printed ys"
  by (induction xs rule: printed.induct) auto

lemma connect_printed:
  "connect w host lg = (res, lg1) \<Longrightarrow> printed lg1 = printed lg"
  by (drule connect_cases) (auto simp: printed_append)

lemma communicate_printed:
  "communicate w ws msg lg = (res, lg1) \<Longrightarrow> printed lg1 = printed lg"
  by (drule communicate_cases) (auto simp: printed_append)

lemma drop_printed:
  assumes "drop_data_from_app w host doc_id lg = (res, lg')"
  shows "printed lg' = printed lg"
proof -
  obtain c lg1 where c: "connect w host lg = (c, lg1)" by force
  note p1 = connect_printed [OF c]
  show ?thesis
  proof (cases c)
    case (Inl e1)
    with assms c p1 show ?thesis by (simp add: drop_data_from_app_def)
  next
    case (Inr ws)
    obtain rep lg2 where o: "communicate w ws (open_doc_msg doc_id) lg1 = (rep, lg2)" by force
    note p2 = communicate_printed [OF o]
    show ?thesis
    proof (cases rep)
      case (Inl e2)
      with assms c Inr o p1 p2 show ?thesis by (simp add: drop_data_from_app_def)
    next
      case r: (Inr response)
      show ?thesis
      proof (cases "q_return response ''qType''")
        case (Inl e3)
        with assms c Inr o r p1 p2 show ?thesis by (simp add: drop_data_from_app_def)
      next
        case t: (Inr ty)
        show ?thesis
        proof (cases "py_eq_str ty ''Doc''")
          case False
          with assms c Inr o r t p1 p2 show ?thesis
            by (auto simp: drop_data_from_app_def printed_append)
        next
          case True
          show ?thesis
          proof (cases "q_return response ''qHandle''")
            case (Inl e4)
            with assms c Inr o r t True p1 p2 show ?thesis by (simp add: drop_data_from_app_def)
          next
            case h: (Inr h)
            obtain s lg3 where s: "communicate w ws (do_save_msg h) lg2 = (s, lg3)" by force
            note p3 = communicate_printed [OF s]
            from assms c Inr o r t True h s p1 p2 p3 show ?thesis
              by (cases s) (auto simp: drop_data_from_app_def printed_append)
          qed
        qed
      qed
    qed
  qed
qed

subsection \<open>Closing the connection\<close>

text \<open>
  On the paths that return, with the document opened and saved or with a reply of another
  type, the connection is closed: the events the call added begin with the opening and end
  with the closing of its connection, which is closed nowhere before. On the paths that
  raise, the events it added contain no closing of that connection.
\<close>

lemma drop_data_from_app_close:
  assumes "drop_data_from_app w host doc_id lg = (res, lg')"
  shows "\<exists>evs. lg' = lg @ evs \<and>
           (case res of
              Inr r \<Rightarrow>
                evs \<noteq> [] \<and> hd evs = Opened (length lg) (''wss://'' @ host @ '':4747/app/'') \<and>
                last evs = Closed (length lg) \<and> Closed (length lg) \<notin> set (butlast evs)
            | Inl e \<Rightarrow> Closed (length lg) \<notin> set evs)"
proof (cases res)
  case (Inl e)
  with drop_raises [of w host doc_id lg e lg'] assms show ?thesis by auto
next
  case (Inr r)
  with drop_returns [of w host doc_id lg r lg'] assms show ?thesis by auto
qed

text \<open>
  Claim C7. The connection \<^verbatim>\<open>drop_data_from_app\<close> opens is to be closed on every way out of
  it, as its docstring announces (\<^verbatim>\<open>... saves app to disk and closes websocket\<close>) and as
  the placement of \<^verbatim>\<open>websocket.close()\<close> after the test of the reply attempts. The code
  misses the ways out by an error: when the engine answers \<^verbatim>\<open>OpenDoc\<close> for document \<^verbatim>\<open>2\<close>
  with an error reply, which has no \<^verbatim>\<open>result\<close>, the lookup of line 119 raises \<^verbatim>\<open>KeyError\<close>
  and the call ends with connection 0 opened and not closed.
\<close>

theorem drop_data_from_app_leak:
  "drop_data_from_app (sample_wire ''error'') ''qs'' (PStr ''2'') [] =
     (Inl KeyError,
      [Opened 0 ''wss://qs:4747/app/'', Received 0 ''hello'',
       Sent 0 (open_doc_msg (PStr ''2'')), Received 0 ''error'']) \<and>
   sample_loads ''error'' = Some (PDict [(''error'', PDict [(''code'', PInt 1003)])]) \<and>
   Opened 0 ''wss://qs:4747/app/''
     \<in> set (snd (drop_data_from_app (sample_wire ''error'') ''qs'' (PStr ''2'') [])) \<and>
   Closed 0 \<notin> set (snd (drop_data_from_app (sample_wire ''error'') ''qs'' (PStr ''2'') []))"
  by code_simp

subsection \<open>The batch\<close>

lemma truncate_loop_returns:
  assumes "fst (truncate_loop w servername n ids lg) = Inr u"
  shows "opened_docs (sent (snd (truncate_loop w servername n ids lg))) =
           opened_docs (sent lg) @ map snd ids \<and>
         printed (snd (truncate_loop w servername n ids lg)) =
           printed lg @ map (progress n) ids"
  using assms
proof (induction ids arbitrary: lg)
  case Nil
  then show ?case by simp
next
  case (Cons p rest)
  obtain i doc_id where p: "p = (i, doc_id)" by force
  let ?lg = "lg @ [Printed (Progress_line doc_id i n)]"
  obtain res lg' where d: "drop_data_from_app w servername doc_id ?lg = (res, lg')"
    by force
  with Cons.prems p obtain r where r: "res = Inr r"
    by (cases res) auto
  have t: "truncate_loop w servername n (p # rest) lg = truncate_loop w servername n rest lg'"
    using d r p by simp
  have ih: "opened_docs (sent (snd (truncate_loop w servername n rest lg'))) =
              opened_docs (sent lg') @ map snd rest \<and>
            printed (snd (truncate_loop w servername n rest lg')) =
              printed lg' @ map (progress n) rest"
    using Cons.IH [of lg'] Cons.prems t by simp
  have o: "opened_docs (sent lg') = opened_docs (sent lg) @ [doc_id]"
    using drop_opened_docs [OF d [unfolded r]] by (simp add: sent_append)
  have q: "printed lg' = printed lg @ [progress n p]"
    using drop_printed [OF d] p by (simp add: printed_append progress_def)
  show ?case
    using t ih o q p by simp
qed

lemma truncate_loop_printed:
  "\<exists>k. k \<le> length ids \<and>
     printed (snd (truncate_loop w servername n ids lg)) =
       printed lg @ map (progress n) (take k ids)"
proof (induction ids arbitrary: lg)
  case Nil
  then show ?case by simp
next
  case (Cons p rest)
  obtain i doc_id where p: "p = (i, doc_id)" by force
  let ?lg = "lg @ [Printed (Progress_line doc_id i n)]"
  obtain res lg' where d: "drop_data_from_app w servername doc_id ?lg = (res, lg')"
    by force
  have q: "printed lg' = printed lg @ [progress n p]"
    using drop_printed [OF d] p by (simp add: printed_append progress_def)
  show ?case
  proof (cases res)
    case (Inl e)
    then have "truncate_loop w servername n (p # rest) lg = (Inl e, lg')"
      using d p by simp
    then have "Suc 0 \<le> length (p # rest) \<and>
        printed (snd (truncate_loop w servername n (p # rest) lg)) =
          printed lg @ map (progress n) (take (Suc 0) (p # rest))"
      using q by simp
    then show ?thesis by blast
  next
    case (Inr r)
    then have t: "truncate_loop w servername n (p # rest) lg =
                    truncate_loop w servername n rest lg'"
      using d p by simp
    from Cons.IH [of lg'] obtain k where
      k: "k \<le> length rest"
         "printed (snd (truncate_loop w servername n rest lg')) =
            printed lg' @ map (progress n) (take k rest)"
      by blast
    have "Suc k \<le> length (p # rest) \<and>
        printed (snd (truncate_loop w servername n (p # rest) lg)) =
          printed lg @ map (progress n) (take (Suc k) (p # rest))"
      using t k q by simp
    then show ?thesis by blast
  qed
qed

text \<open>
  Claim C8 (amended). A document that fails to open without an error being raised (the
  connection opens, the \<^verbatim>\<open>OpenDoc\<close> exchange returns a reply, and its type is not \<^verbatim>\<open>Doc\<close>)
  does not keep the loop from the remaining identifiers: the call returns that reply, with
  the connection closed, and the loop goes on with the rest. An error raised inside a call
  is not caught: it ends the loop there, with nothing more attempted. Whenever the loop
  returns, the documents whose opening was requested during it are all the identifiers,
  each once, in their order. What the loop reports is the progress line printed before
  each attempt and nothing else: the lines printed are those of the identifiers reached,
  whatever the outcomes were.
\<close>

theorem truncate_loop_isolation:
  "(connect w servername (lg @ [Printed (Progress_line doc_id i n)]) = (Inr ws, lg1) \<longrightarrow>
    communicate w ws (open_doc_msg doc_id) lg1 = (Inr response, lg2) \<longrightarrow>
    q_return response ''qType'' = Inr ty \<longrightarrow> \<not> py_eq_str ty ''Doc'' \<longrightarrow>
      drop_data_from_app w servername doc_id (lg @ [Printed (Progress_line doc_id i n)]) =
        (Inr response, lg2 @ [Closed ws]) \<and>
      truncate_loop w servername n ((i, doc_id) # rest) lg =
        truncate_loop w servername n rest (lg2 @ [Closed ws])) \<and>
   (drop_data_from_app w servername doc_id (lg @ [Printed (Progress_line doc_id i n)]) =
      (Inl e, lg') \<longrightarrow>
      truncate_loop w servername n ((i, doc_id) # rest) lg = (Inl e, lg')) \<and>
   (fst (truncate_loop w servername n ids lg) = Inr u \<longrightarrow>
      opened_docs (sent (snd (truncate_loop w servername n ids lg))) =
        opened_docs (sent lg) @ map snd ids \<and>
      printed (snd (truncate_loop w servername n ids lg)) =
        printed lg @ map (progress n) ids) \<and>
   (\<exists>k. k \<le> length ids \<and>
      printed (snd (truncate_loop w servername n ids lg)) =
        printed lg @ map (progress n) (take k ids))"
proof (intro conjI impI)
  assume a: "connect w servername (lg @ [Printed (Progress_line doc_id i n)]) = (Inr ws, lg1)"
    "communicate w ws (open_doc_msg doc_id) lg1 = (Inr response, lg2)"
    "q_return response ''qType'' = Inr ty" "\<not> py_eq_str ty ''Doc''"
  then show d: "drop_data_from_app w servername doc_id
        (lg @ [Printed (Progress_line doc_id i n)]) = (Inr response, lg2 @ [Closed ws])"
    by (simp add: drop_data_from_app_def)
  then show "truncate_loop w servername n ((i, doc_id) # rest) lg =
      truncate_loop w servername n rest (lg2 @ [Closed ws])"
    by simp
next
  assume "drop_data_from_app w servername doc_id (lg @ [Printed (Progress_line doc_id i n)]) =
      (Inl e, lg')"
  then show "truncate_loop w servername n ((i, doc_id) # rest) lg = (Inl e, lg')"
    by simp
next
  assume r: "fst (truncate_loop w servername n ids lg) = Inr u"
  show "opened_docs (sent (snd (truncate_loop w servername n ids lg))) =
      opened_docs (sent lg) @ map snd ids"
    using truncate_loop_returns [OF r] by simp
  show "printed (snd (truncate_loop w servername n ids lg)) =
      printed lg @ map (progress n) ids"
    using truncate_loop_returns [OF r] by simp
next
  show "\<exists>k. k \<le> length ids \<and>
      printed (snd (truncate_loop w servername n ids lg)) =
        printed lg @ map (progress n) (take k ids)"
    by (rule truncate_loop_printed)
qed

text \<open>
  Three identifiers on an engine that answers the second with a reply that is no document:
  the second call returns with its connection closed and the loop goes on to the third;
  the loop returns, all three openings were requested and three progress lines printed.
  On an engine that answers the second with an error reply, the loop ends there.
\<close>

theorem truncate_loop_isolation_witness:
  "drop_data_from_app (sample_wire ''nodoc'') ''qs'' (PStr ''2'')
     ([] @ [Printed (Progress_line (PStr ''2'') 1 3)]) =
     (Inr (PDict [(''result'', PDict [(''qReturn'',
             PDict [(''qType'', PNone), (''qHandle'', PNone)])])]),
      [Printed (Progress_line (PStr ''2'') 1 3), Opened 1 ''wss://qs:4747/app/'',
       Received 1 ''hello'', Sent 1 (open_doc_msg (PStr ''2'')), Received 1 ''nodoc'']
      @ [Closed 1]) \<and>
   truncate_loop (sample_wire ''nodoc'') ''qs'' 3 ((1, PStr ''2'') # [(2, PStr ''3'')]) [] =
     truncate_loop (sample_wire ''nodoc'') ''qs'' 3 [(2, PStr ''3'')]
       ([Printed (Progress_line (PStr ''2'') 1 3), Opened 1 ''wss://qs:4747/app/'',
         Received 1 ''hello'', Sent 1 (open_doc_msg (PStr ''2'')), Received 1 ''nodoc'']
        @ [Closed 1]) \<and>
   truncate_loop (sample_wire ''error'') ''qs'' 3 ((1, PStr ''2'') # [(2, PStr ''3'')]) [] =
     (Inl KeyError,
      [Printed (Progress_line (PStr ''2'') 1 3), Opened 1 ''wss://qs:4747/app/'',
       Received 1 ''hello'', Sent 1 (open_doc_msg (PStr ''2'')), Received 1 ''error'']) \<and>
   fst (truncate_loop (sample_wire ''nodoc'') ''qs'' 3
          (enumerate 0 [PStr ''1'', PStr ''2'', PStr ''3'']) []) = Inr () \<and>
   opened_docs (sent (snd (truncate_loop (sample_wire ''nodoc'') ''qs'' 3
       (enumerate 0 [PStr ''1'', PStr ''2'', PStr ''3'']) []))) =
     opened_docs (sent []) @ map snd (enumerate 0 [PStr ''1'', PStr ''2'', PStr ''3'']) \<and>
   printed (snd (truncate_loop (sample_wire ''nodoc'') ''qs'' 3
       (enumerate 0 [PStr ''1'', PStr ''2'', PStr ''3'']) [])) =
     printed [] @ map (progress 3) (enumerate 0 [PStr ''1'', PStr ''2'', PStr ''3''])"
proof -
  let ?n = "sample_wire ''nodoc''"
  let ?e = "sample_wire ''error''"
  let ?p = "Printed (Progress_line (PStr ''2'') 1 3)"
  let ?lg1 = "[?p, Opened 1 ''wss://qs:4747/app/'', Received 1 ''hello'']"
  let ?lg2 = "[?p, Opened 1 ''wss://qs:4747/app/'', Received 1 ''hello'',
               Sent 1 (open_doc_msg (PStr ''2'')), Received 1 ''nodoc'']"
  let ?lg3 = "[?p, Opened 1 ''wss://qs:4747/app/'', Received 1 ''hello'',
               Sent 1 (open_doc_msg (PStr ''2'')), Received 1 ''error'']"
  let ?r = "PDict [(''result'', PDict [(''qReturn'',
              PDict [(''qType'', PNone), (''qHandle'', PNone)])])]"
  let ?ids = "enumerate 0 [PStr ''1'', PStr ''2'', PStr ''3'']"
  have c: "connect ?n ''qs'' ([] @ [?p]) = (Inr 1, ?lg1)" by code_simp
  have o: "communicate ?n 1 (open_doc_msg (PStr ''2'')) ?lg1 = (Inr ?r, ?lg2)" by code_simp
  have t: "q_return ?r ''qType'' = Inr PNone" by code_simp
  have n: "\<not> py_eq_str PNone ''Doc''" by simp
  have d: "drop_data_from_app ?e ''qs'' (PStr ''2'') ([] @ [?p]) = (Inl KeyError, ?lg3)"
    by code_simp
  have l: "fst (truncate_loop ?n ''qs'' 3 ?ids []) = Inr ()" by code_simp
  note 1 = truncate_loop_isolation [where w = ?n and servername = "''qs''" and lg = "[]"
      and doc_id = "PStr ''2''" and i = 1 and n = 3 and ws = 1 and ?lg1.0 = ?lg1
      and response = ?r and ?lg2.0 = ?lg2 and ty = PNone and rest = "[(2, PStr ''3'')]"
      and ids = ?ids and u = "()"]
  note 2 = truncate_loop_isolation [where w = ?e and servername = "''qs''" and lg = "[]"
      and doc_id = "PStr ''2''" and i = 1 and n = 3 and rest = "[(2, PStr ''3'')]"
      and e = KeyError and lg' = ?lg3]
  from 1 c o t n l have
    "drop_data_from_app ?n ''qs'' (PStr ''2'') ([] @ [?p]) = (Inr ?r, ?lg2 @ [Closed 1])"
    "truncate_loop ?n ''qs'' 3 ((1, PStr ''2'') # [(2, PStr ''3'')]) [] =
       truncate_loop ?n ''qs'' 3 [(2, PStr ''3'')] (?lg2 @ [Closed 1])"
    "opened_docs (sent (snd (truncate_loop ?n ''qs'' 3 ?ids []))) =
       opened_docs (sent []) @ map snd ?ids"
    "printed (snd (truncate_loop ?n ''qs'' 3 ?ids [])) = printed [] @ map (progress 3) ?ids"
    by blast+
  moreover from 2 d have
    "truncate_loop ?e ''qs'' 3 ((1, PStr ''2'') # [(2, PStr ''3'')]) [] = (Inl KeyError, ?lg3)"
    by blast
  ultimately show ?thesis using l by blast
qed

text \<open>
  As first stated the property fails twice. No failure was to keep the remaining
  identifiers from being attempted: with three identifiers, the second answered with an
  error reply, the loop ends with \<^verbatim>\<open>KeyError\<close> after two progress lines and the opening of
  the third is never requested. The outcomes were to be reported: document \<^verbatim>\<open>2\<close> is left
  unopened on one engine and saved on the other, and the lines printed are the same three.
\<close>

theorem truncate_loop_abort_counterexample:
  "fst (truncate_loop (sample_wire ''error'') ''qs'' 3
          (enumerate 0 [PStr ''1'', PStr ''2'', PStr ''3'']) []) = Inl KeyError \<and>
   opened_docs (sent (snd (truncate_loop (sample_wire ''error'') ''qs'' 3
       (enumerate 0 [PStr ''1'', PStr ''2'', PStr ''3'']) []))) =
     [PStr ''1'', PStr ''2''] \<and>
   printed (snd (truncate_loop (sample_wire ''error'') ''qs'' 3
       (enumerate 0 [PStr ''1'', PStr ''2'', PStr ''3'']) [])) =
     [Progress_line (PStr ''1'') 0 3, Progress_line (PStr ''2'') 1 3] \<and>
   fst (drop_data_from_app (sample_wire ''nodoc'') ''qs'' (PStr ''2'') []) =
     Inr (PDict [(''result'', PDict [(''qReturn'',
            PDict [(''qType'', PNone), (''qHandle'', PNone)])])]) \<and>
   fst (drop_data_from_app (sample_wire ''doc'') ''qs'' (PStr ''2'') []) =
     Inr (PDict [(''result'', PDict [])]) \<and>
   sent (snd (drop_data_from_app (sample_wire ''nodoc'') ''qs'' (PStr ''2'') [])) =
     [(0, open_doc_msg (PStr ''2''))] \<and>
   sent (snd (drop_data_from_app (sample_wire ''doc'') ''qs'' (PStr ''2'') [])) =
     [(0, open_doc_msg (PStr ''2'')), (0, do_save_msg (PInt 1))] \<and>
   printed (snd (truncate_loop (sample_wire ''nodoc'') ''qs'' 3
       (enumerate 0 [PStr ''1'', PStr ''2'', PStr ''3'']) [])) =
     [Progress_line (PStr ''1'') 0 3, Progress_line (PStr ''2'') 1 3,
      Progress_line (PStr ''3'') 2 3] \<and>
   printed (snd (truncate_loop (sample_wire ''doc'') ''qs'' 3
       (enumerate 0 [PStr ''1'', PStr ''2'', PStr ''3'']) [])) =
     [Progress_line (PStr ''1'') 0 3, Progress_line (PStr ''2'') 1 3,
      Progress_line (PStr ''3'') 2 3]"
  by code_simp

subsection \<open>The save call\<close>

text \<open>
  Claim C9. Once the connection is open and the \<^verbatim>\<open>OpenDoc\<close> exchange has returned a reply
  with a type: if the type is \<^verbatim>\<open>Doc\<close>, \<^verbatim>\<open>drop_data_from_app\<close> sends exactly one further
  message, on the same connection, the \<^verbatim>\<open>DoSave\<close> call whose handle is the \<^verbatim>\<open>qHandle\<close> of
  that reply and whose \<^verbatim>\<open>qFileName\<close> is the empty string; if the type is anything else it
  sends nothing further.
\<close>

theorem drop_data_from_app_save:
  assumes "connect w host lg = (Inr ws, lg1)"
    and "communicate w ws (open_doc_msg doc_id) lg1 = (Inr response, lg2)"
    and "q_return response ''qType'' = Inr ty"
  shows "(py_eq_str ty ''Doc'' \<longrightarrow> q_return response ''qHandle'' = Inr h \<longrightarrow>
            sent (snd (drop_data_from_app w host doc_id lg)) =
              sent lg2 @
              [(ws, PDict [(''handle'', h), (''method'', PStr ''DoSave''),
                           (''params'', PDict [(''qFileName'', PStr '''')])])]) \<and>
         (\<not> py_eq_str ty ''Doc'' \<longrightarrow>
            sent (snd (drop_data_from_app w host doc_id lg)) = sent lg2)"
proof (intro conjI impI)
  assume "\<not> py_eq_str ty ''Doc''"
  then show "sent (snd (drop_data_from_app w host doc_id lg)) = sent lg2"
    using assms by (simp add: drop_data_from_app_def sent_append)
next
  assume doc: "py_eq_str ty ''Doc''" and h: "q_return response ''qHandle'' = Inr h"
  obtain s lg3 where s: "communicate w ws (do_save_msg h) lg2 = (s, lg3)" by force
  have "snd (drop_data_from_app w host doc_id lg) = lg3 \<or>
        snd (drop_data_from_app w host doc_id lg) = lg3 @ [Closed ws]"
    using assms doc h s by (cases s) (simp_all add: drop_data_from_app_def)
  moreover have "sent lg3 = sent lg2 @ [(ws, do_save_msg h)]"
    using communicate_cases [OF s] by (auto simp: sent_append)
  ultimately show "sent (snd (drop_data_from_app w host doc_id lg)) =
      sent lg2 @
      [(ws, PDict [(''handle'', h), (''method'', PStr ''DoSave''),
                   (''params'', PDict [(''qFileName'', PStr '''')])])]"
    by (auto simp: sent_append do_save_msg_def)
qed

text \<open>
  Document \<^verbatim>\<open>1\<close> opens with handle 1 and is saved on that handle; document \<^verbatim>\<open>2\<close> gets a
  reply that is no document and nothing more is sent.
\<close>

theorem drop_data_from_app_save_witness:
  "sent (snd (drop_data_from_app (sample_wire ''nodoc'') ''qs'' (PStr ''1'') [])) =
     sent [Opened 0 ''wss://qs:4747/app/'', Received 0 ''hello'',
           Sent 0 (open_doc_msg (PStr ''1'')), Received 0 ''doc''] @
     [(0, PDict [(''handle'', PInt 1), (''method'', PStr ''DoSave''),
                 (''params'', PDict [(''qFileName'', PStr '''')])])] \<and>
   sent (snd (drop_data_from_app (sample_wire ''nodoc'') ''qs'' (PStr ''2'') [])) =
     sent [Opened 0 ''wss://qs:4747/app/'', Received 0 ''hello'',
           Sent 0 (open_doc_msg (PStr ''2'')), Received 0 ''nodoc'']"
proof -
  let ?w = "sample_wire ''nodoc''"
  let ?lg1 = "[Opened 0 ''wss://qs:4747/app/'', Received 0 ''hello'']"
  let ?doc = "PDict [(''result'', PDict [(''qReturn'',
                PDict [(''qType'', PStr ''Doc''), (''qHandle'', PInt 1)])])]"
  let ?nodoc = "PDict [(''result'', PDict [(''qReturn'',
                PDict [(''qType'', PNone), (''qHandle'', PNone)])])]"
  have c: "connect ?w ''qs'' [] = (Inr 0, ?lg1)" by code_simp
  have o1: "communicate ?w 0 (open_doc_msg (PStr ''1'')) ?lg1 =
              (Inr ?doc, ?lg1 @ [Sent 0 (open_doc_msg (PStr ''1'')), Received 0 ''doc''])"
    by code_simp
  have o2: "communicate ?w 0 (open_doc_msg (PStr ''2'')) ?lg1 =
              (Inr ?nodoc, ?lg1 @ [Sent 0 (open_doc_msg (PStr ''2'')), Received 0 ''nodoc''])"
    by code_simp
  have t1: "q_return ?doc ''qType'' = Inr (PStr ''Doc'')" by code_simp
  have t2: "q_return ?nodoc ''qType'' = Inr PNone" by code_simp
  have h1: "q_return ?doc ''qHandle'' = Inr (PInt 1)" by code_simp
  show ?thesis
    using drop_data_from_app_save [OF c o1 t1, of "PInt 1"] h1
      drop_data_from_app_save [OF c o2 t2, of PNone]
    by simp
qed

end
